theory Spec2Isabelle
  imports Main "HOL-Library.Word"
begin

unbundle bit_operations_syntax

section \<open>Data model of the zipper server (package core)\<close>

type_synonym byte = "8 word"

text \<open>Go's \<open>int\<close> on a 64-bit target and \<open>int64\<close>: both wrap around on overflow.\<close>

type_synonym go_int = "64 word"
type_synonym int64 = "64 word"

text \<open>A \<open>quic.Stream\<close> (and the \<open>*quic.Stream\<close> kept in the registry) is an identity.\<close>

type_synonym quic_stream = nat

text \<open>
  Go errors.  \<open>ParseFrame\<close> builds one error itself (\<open>fmt.Errorf("unknown frame type, ...")\<close>,
  which wraps nothing); every other error comes from a library: it carries its text, and
  whether \<open>errors.Is(err, net.ErrClosed)\<close> holds of it.
\<close>

datatype error =
    UnknownFrameType byte
  | LibError (wraps_ErrClosed: bool) (text_of: string)

fun is_ErrClosed :: "error \<Rightarrow> bool" where
  "is_ErrClosed (UnknownFrameType b) = False"
| "is_ErrClosed (LibError c m) = c"

text \<open>
  The frame types live in package \<open>internal/frame\<close>.  A frame is immutable once decoded, so
  it is modelled by the results of the methods and fields the server reads:
  \<open>f.Name\<close>, \<open>f.ClientType\<close> of a handshake frame; \<open>TransactionID()\<close>, \<open>Issuer()\<close>,
  \<open>GetDataTagID()\<close>, \<open>GetCarriage()\<close> and \<open>Encode()\<close> of a data frame.
\<close>

text \<open>
  Modelled from the spec: the declaration of \<open>ConnectionType\<close> and of its constants
  \<open>ConnTypeSource\<close>, \<open>ConnTypeStreamFunction\<close>, \<open>ConnTypeUpstreamZipper\<close> is missing; the client
  type is an enumeration of these three, and \<open>ConnTypeUnknown\<close> stands for every other byte
  (the \<open>default\<close> branch of the switch).
\<close>

datatype ConnectionType =
    ConnTypeSource
  | ConnTypeStreamFunction
  | ConnTypeUpstreamZipper
  | ConnTypeUnknown

record HandshakeFrame =
  Name :: string
  ClientType :: ConnectionType

record DataFrame =
  TransactionID :: string
  Issuer :: string
  GetDataTagID :: byte
  GetCarriage :: "byte list"
  Encode :: "byte list"

datatype Frame =
    FHandshake HandshakeFrame
  | FData DataFrame
  | FPing
  | FPong
  | FAccepted
  | FRejected

text \<open>
  Modelled from the spec: \<open>ConcurrentMap\<close> (the Function Registry) is missing.  It maps a
  function name to its stream handle; \<open>set(name, handle)\<close> replaces any existing entry and
  always succeeds; \<open>get(name)\<close> returns the handle or absent (\<open>nil\<close>).
\<close>

type_synonym ConcurrentMap = "string \<rightharpoonup> quic_stream"

definition NewConcurrentMap :: ConcurrentMap where
  "NewConcurrentMap = Map.empty"

definition funcs_Set :: "ConcurrentMap \<Rightarrow> string \<Rightarrow> quic_stream \<Rightarrow> ConcurrentMap" where
  "funcs_Set m name h = m(name \<mapsto> h)"

definition funcs_Get :: "ConcurrentMap \<Rightarrow> string \<Rightarrow> quic_stream option" where
  "funcs_Get m name = m name"

text \<open>The \<open>Workflow\<close> struct: the source reads \<open>wf.Seq\<close> and \<open>wf.Token\<close>.\<close>

record Workflow =
  Seq :: go_int
  Token :: string

record Server =
  stream :: "quic_stream option"
  state :: string
  funcs :: ConcurrentMap
  counterOfDataFrame :: int64
  funcBuckets :: "go_int \<rightharpoonup> string"

definition NewServer :: Server where
  "NewServer = \<lparr> stream = None, state = '''', funcs = NewConcurrentMap,
                 counterOfDataFrame = 0, funcBuckets = Map.empty \<rparr>"

text \<open>
  What the server does to the transport: the calls it makes on streams and sessions.
  \<open>SessionCloseWithError code err\<close> is \<open>session.CloseWithError(code, err.Error())\<close>.
\<close>

datatype event =
    Write quic_stream "byte list"
  | StreamClose quic_stream
  | SessionCloseWithError nat error

section \<open>Handlers\<close>

definition StatsCounter :: "Server \<Rightarrow> int64" where
  "StatsCounter s = counterOfDataFrame s"

definition handleHandShakeFrame :: "Server \<Rightarrow> quic_stream \<Rightarrow> HandshakeFrame \<Rightarrow> Server" where
  "handleHandShakeFrame s strm f =
     (case ClientType f of
        ConnTypeSource \<Rightarrow> s
      | ConnTypeStreamFunction \<Rightarrow> s\<lparr>funcs := funcs_Set (funcs s) (Name f) strm\<rparr>
      | ConnTypeUpstreamZipper \<Rightarrow> s
      | ConnTypeUnknown \<Rightarrow> s)"

definition handlePingFrame :: "Server \<Rightarrow> quic_stream \<Rightarrow> Server" where
  "handlePingFrame s strm = s"

text \<open>
  \<open>s.funcBuckets[j]\<close>: reading a Go map at a key that is not there gives the zero value, the
  empty string.
\<close>

definition bucket :: "(go_int \<rightharpoonup> string) \<Rightarrow> go_int \<Rightarrow> string" where
  "bucket fb j = (case fb j of None \<Rightarrow> [] | Some k \<Rightarrow> k)"

text \<open>
  \<open>for i, k := range s.funcBuckets { if k == currentSfn { j = i + 1 } }\<close>.  Go visits the
  entries of a map in an order that it does not specify and that changes from one loop to
  the next, so the order of the keys is an argument: \<open>range_order fb order\<close> says that
  \<open>order\<close> lists each key of \<open>fb\<close> once.
\<close>

definition range_order :: "(go_int \<rightharpoonup> string) \<Rightarrow> go_int list \<Rightarrow> bool" where
  "range_order fb order \<longleftrightarrow> distinct order \<and> set order = dom fb"

definition scan_step :: "(go_int \<rightharpoonup> string) \<Rightarrow> string \<Rightarrow> go_int \<Rightarrow> go_int \<Rightarrow> go_int" where
  "scan_step fb currentSfn i j = (if fb i = Some currentSfn then i + 1 else j)"

definition scan_buckets :: "(go_int \<rightharpoonup> string) \<Rightarrow> go_int list \<Rightarrow> string \<Rightarrow> go_int" where
  "scan_buckets fb order currentSfn = fold (scan_step fb currentSfn) order 0"

definition write_to :: "quic_stream option \<Rightarrow> DataFrame \<Rightarrow> event list" where
  "write_to targetStream f =
     (case targetStream of None \<Rightarrow> [] | Some t \<Rightarrow> [Write t (Encode f)])"

definition handleDataFrame :: "Server \<Rightarrow> go_int list \<Rightarrow> DataFrame \<Rightarrow> Server \<times> event list" where
  "handleDataFrame s order f =
     (let s1 = s\<lparr>counterOfDataFrame := counterOfDataFrame s + 1\<rparr>;
          currentSfn = Issuer f;
          j = scan_buckets (funcBuckets s1) order currentSfn
      in if j = 0 then
           (s1, write_to (funcs_Get (funcs s1) (bucket (funcBuckets s1) 0)) f)
         else if length (bucket (funcBuckets s1) j) = 0 then
           (s1, [])
         else
           (s1, write_to (funcs_Get (funcs s1) (bucket (funcBuckets s1) j)) f))"

text \<open>The body of the loop of \<open>AddWorkflow\<close>: \<open>s.funcBuckets[wf.Seq] = wf.Token\<close>.\<close>

definition add_stage :: "Workflow \<Rightarrow> Server \<Rightarrow> Server" where
  "add_stage w s = s\<lparr>funcBuckets := (funcBuckets s)(Seq w \<mapsto> Token w)\<rparr>"

definition AddWorkflow :: "Server \<Rightarrow> Workflow list \<Rightarrow> Server \<times> error option" where
  "AddWorkflow s wfs = (fold add_stage wfs s, None)"

section \<open>The frame parser (stream\_parser.go)\<close>

text \<open>
  The tag constants and the decoders of package \<open>internal/frame\<close> are not part of the
  sources at hand; \<open>ParseFrame\<close> takes them as arguments.  A decoder returns Go's pair
  \<open>(value, err)\<close>: \<open>Inl err\<close> when \<open>err\<close> is not \<open>nil\<close>.
\<close>

record frame_tags =
  TagOfHandshakeFrame :: byte
  TagOfDataFrame :: byte
  TagOfPingFrame :: byte
  TagOfPongFrame :: byte
  TagOfAcceptedFrame :: byte
  TagOfRejectedFrame :: byte

record frame_codec =
  DecodeToHandshakeFrame :: "byte list \<Rightarrow> error + HandshakeFrame"
  DecodeToDataFrame :: "byte list \<Rightarrow> error + DataFrame"
  DecodeToPingFrame :: "byte list \<Rightarrow> error option"
  DecodeToPongFrame :: "byte list \<Rightarrow> error option"
  DecodeToAcceptedFrame :: "byte list \<Rightarrow> error option"
  DecodeToRejectedFrame :: "byte list \<Rightarrow> error option"

text \<open>
  A Go function either returns or panics; a panic that nobody recovers ends the process.
  \<open>buf[0]\<close> on an empty slice is a run-time panic.
\<close>

datatype panic = PanicError error | IndexOutOfRange

datatype 'a outcome = Returns 'a | Panics panic

definition readHandshakeFrame :: "frame_codec \<Rightarrow> byte list \<Rightarrow> HandshakeFrame outcome" where
  "readHandshakeFrame cdc buf =
     (case DecodeToHandshakeFrame cdc buf of
        Inl err \<Rightarrow> Panics (PanicError err)
      | Inr handshake \<Rightarrow> Returns handshake)"

definition readDataFrame :: "frame_codec \<Rightarrow> byte list \<Rightarrow> DataFrame outcome" where
  "readDataFrame cdc buf =
     (case DecodeToDataFrame cdc buf of
        Inl err \<Rightarrow> Panics (PanicError err)
      | Inr data \<Rightarrow> Returns data)"

definition decoded :: "Frame \<Rightarrow> error option \<Rightarrow> (error + Frame) outcome" where
  "decoded f r = (case r of None \<Rightarrow> Returns (Inr f) | Some err \<Rightarrow> Returns (Inl err))"

text \<open>The argument is what \<open>y3.ReadPacket(stream)\<close> returned: an error or the packet.\<close>

definition ParseFrame ::
  "frame_tags \<Rightarrow> frame_codec \<Rightarrow> error + byte list \<Rightarrow> (error + Frame) outcome" where
  "ParseFrame tg cdc packet =
     (case packet of
        Inl err \<Rightarrow> Returns (Inl err)
      | Inr buf \<Rightarrow>
         (case buf of
            [] \<Rightarrow> Panics IndexOutOfRange
          | frameType # _ \<Rightarrow>
              if frameType = 0x80 OR TagOfHandshakeFrame tg then
                (case readHandshakeFrame cdc buf of
                   Panics p \<Rightarrow> Panics p
                 | Returns handshakeFrame \<Rightarrow> Returns (Inr (FHandshake handshakeFrame)))
              else if frameType = 0x80 OR TagOfDataFrame tg then
                (case readDataFrame cdc buf of
                   Panics p \<Rightarrow> Panics p
                 | Returns data \<Rightarrow> Returns (Inr (FData data)))
              else if frameType = 0x80 OR TagOfPingFrame tg then
                decoded FPing (DecodeToPingFrame cdc buf)
              else if frameType = 0x80 OR TagOfPongFrame tg then
                decoded FPong (DecodeToPongFrame cdc buf)
              else if frameType = 0x80 OR TagOfAcceptedFrame tg then
                decoded FAccepted (DecodeToAcceptedFrame cdc buf)
              else if frameType = 0x80 OR TagOfRejectedFrame tg then
                decoded FRejected (DecodeToRejectedFrame cdc buf)
              else Returns (Inl (UnknownFrameType frameType))))"

text \<open>The frame kind that a first byte selects: the byte without its marker bit \<open>0x80\<close>.\<close>

definition kind_of :: "byte \<Rightarrow> byte" where
  "kind_of b = b AND 0x7F"

definition known_tags :: "frame_tags \<Rightarrow> byte list" where
  "known_tags tg = [TagOfHandshakeFrame tg, TagOfDataFrame tg, TagOfPingFrame tg,
                    TagOfPongFrame tg, TagOfAcceptedFrame tg, TagOfRejectedFrame tg]"

text \<open>
  Modelled from the spec: the encoder and the decoder of data frames (package
  \<open>internal/frame\<close>) are missing.  The Frame Codec is a pure translation that "decodes a
  byte buffer into one of a fixed set of typed frames, and encodes a typed frame back to
  bytes", and a forwarded frame carries "the same encoded bytes": a decoded data frame
  encodes to the buffer it was decoded from.
\<close>

definition codec_roundtrip :: "frame_codec \<Rightarrow> bool" where
  "codec_roundtrip cdc \<longleftrightarrow> (\<forall>buf f. DecodeToDataFrame cdc buf = Inr f \<longrightarrow> Encode f = buf)"

section \<open>The loops of a connection (handleSession, ListenAndServe)\<close>

text \<open>
  \<open>fs.ReadFrame()\<close> blocks on the network, so the frames and errors that it returns are an
  argument: the list of its results, each with the order in which Go would visit the
  workflow map if the frame is a data frame.  A list that ends means that the next read
  has not returned yet.
\<close>

type_synonym read_result = "(error + Frame) \<times> go_int list"

datatype reading = PeerClosed | SessionClosed | ReadPending

definition dispatch :: "Server \<Rightarrow> quic_stream \<Rightarrow> go_int list \<Rightarrow> Frame \<Rightarrow> Server \<times> event list" where
  "dispatch s strm order f =
     (case f of
        FHandshake h \<Rightarrow> (handleHandShakeFrame s strm h, [])
      | FPing \<Rightarrow> (handlePingFrame s strm, [])
      | FData d \<Rightarrow> handleDataFrame s order d
      | _ \<Rightarrow> (s, []))"

fun handleSession ::
  "Server \<Rightarrow> quic_stream \<Rightarrow> read_result list \<Rightarrow> Server \<times> event list \<times> reading" where
  "handleSession s strm [] = (s, [], ReadPending)"
| "handleSession s strm ((Inl err, order) # rest) =
     (if is_ErrClosed err then (s, [], PeerClosed)
      else (s, [StreamClose strm, SessionCloseWithError 0xCC err], SessionClosed))"
| "handleSession s strm ((Inr f, order) # rest) =
     (case dispatch s strm order f of
        (s1, ev1) \<Rightarrow>
          (case handleSession s1 strm rest of
             (s2, ev2, r) \<Rightarrow> (s2, ev1 @ ev2, r)))"

text \<open>
  The goroutine of one connection.  \<open>sess.AcceptStream\<close> returns a stream with the results of
  reading it, or an error; once the server has called \<open>session.CloseWithError\<close> it returns
  that error ("after this, session.AcceptStream() will raise the error which specific in
  session.CloseWithError()").  The result lists the streams accepted, in order.
\<close>

datatype accept_result = AcceptError error | AcceptStream quic_stream "read_result list"

datatype accepting = AcceptEnded | AcceptPending

fun acceptLoop ::
  "Server \<Rightarrow> bool \<Rightarrow> accept_result list \<Rightarrow> Server \<times> event list \<times> quic_stream list \<times> accepting" where
  "acceptLoop s closed [] = (s, [], [], if closed then AcceptEnded else AcceptPending)"
| "acceptLoop s closed (AcceptError err # rest) = (s, [], [], AcceptEnded)"
| "acceptLoop s closed (AcceptStream strm reads # rest) =
     (if closed then (s, [], [], AcceptEnded)
      else
        (case handleSession s strm reads of
           (s1, ev1, ReadPending) \<Rightarrow> (s1, ev1, [strm], AcceptPending)
         | (s1, ev1, r) \<Rightarrow>
             (case acceptLoop s1 (r = SessionClosed) rest of
                (s2, ev2, accepted, a) \<Rightarrow> (s2, ev1 @ ev2, strm # accepted, a))))"

text \<open>The \<open>defer stream.Close()\<close> of every accepted stream runs when the goroutine ends.\<close>

definition serveSession ::
  "Server \<Rightarrow> accept_result list \<Rightarrow> Server \<times> event list \<times> quic_stream list \<times> accepting" where
  "serveSession s script =
     (case acceptLoop s False script of
        (s', ev, accepted, a) \<Rightarrow>
          (s', ev @ (if a = AcceptEnded then map StreamClose (rev accepted) else []), accepted, a))"

section \<open>Statements of the specification, for comparison with the code\<close>

text \<open>
  What the specification says the Routing Engine does with a data frame whose issuer holds
  stage \<open>i\<close>: it forwards to the stream registered under the token of stage \<open>i + 1\<close>, and
  drops the frame when that token is unassigned, empty, or not registered.
\<close>

definition claimed_next_stage :: "Server \<Rightarrow> DataFrame \<Rightarrow> go_int \<Rightarrow> event list" where
  "claimed_next_stage s f i =
     (case funcBuckets s (i + 1) of
        None \<Rightarrow> []
      | Some tok \<Rightarrow>
          if tok = [] then []
          else (case funcs_Get (funcs s) tok of
                  None \<Rightarrow> []
                | Some t \<Rightarrow> [Write t (Encode f)]))"

text \<open>
  The stage table that the specification describes after a bulk add of \<open>wfs\<close> to the
  table \<open>fb\<close>: stage \<open>k\<close> holds the token of the last pair with sequence \<open>k\<close>, and keeps
  what it held when there is no such pair.
\<close>

definition table_after :: "(go_int \<rightharpoonup> string) \<Rightarrow> Workflow list \<Rightarrow> (go_int \<rightharpoonup> string)" where
  "table_after fb wfs = (\<lambda>k. let ws = filter (\<lambda>wf. Seq wf = k) wfs
                          in if ws = [] then fb k else Some (Token (last ws)))"

text \<open>The data frames that \<open>ReadFrame\<close> delivered before its first error.\<close>

fun data_frames_read :: "read_result list \<Rightarrow> nat" where
  "data_frames_read [] = 0"
| "data_frames_read ((Inl err, order) # rest) = 0"
| "data_frames_read ((Inr (FData d), order) # rest) = Suc (data_frames_read rest)"
| "data_frames_read ((Inr f, order) # rest) = data_frames_read rest"

section \<open>Example inputs\<close>

abbreviation server_with :: "ConcurrentMap \<Rightarrow> (go_int \<rightharpoonup> string) \<Rightarrow> Server" where
  "server_with registry table \<equiv>
     \<lparr>stream = None, state = ''connected'', funcs = registry,
      counterOfDataFrame = 0, funcBuckets = table\<rparr>"

abbreviation data_from :: "string \<Rightarrow> DataFrame" where
  "data_from issuer \<equiv>
     \<lparr>TransactionID = ''t1'', Issuer = issuer, GetDataTagID = 0x10,
      GetCarriage = [1, 2], Encode = [0xBF, 2, 1, 2]\<rparr>"

abbreviation stage :: "go_int \<Rightarrow> string \<Rightarrow> Workflow" where
  "stage n tok \<equiv> \<lparr>Seq = n, Token = tok\<rparr>"

abbreviation example_tags :: frame_tags where
  "example_tags \<equiv>
     \<lparr>TagOfHandshakeFrame = 0x3D, TagOfDataFrame = 0x3F, TagOfPingFrame = 0x3C,
      TagOfPongFrame = 0x3B, TagOfAcceptedFrame = 0x3A, TagOfRejectedFrame = 0x39\<rparr>"

text \<open>
  Decoders for the examples: they reject a packet that is too short, and the data frame
  decoded from a packet encodes to that packet.
\<close>

abbreviation example_codec :: frame_codec where
  "example_codec \<equiv>
     \<lparr>DecodeToHandshakeFrame = (\<lambda>buf. if length buf < 3 then Inl (LibError False ''EOF'')
          else Inr \<lparr>Name = ''A'', ClientType = ConnTypeStreamFunction\<rparr>),
      DecodeToDataFrame = (\<lambda>buf. if length buf < 3 then Inl (LibError False ''EOF'')
          else Inr \<lparr>TransactionID = ''t1'', Issuer = ''A'', GetDataTagID = 0x10,
                    GetCarriage = drop 2 buf, Encode = buf\<rparr>),
      DecodeToPingFrame = (\<lambda>buf. if length buf < 2 then Some (LibError False ''EOF'') else None),
      DecodeToPongFrame = (\<lambda>buf. if length buf < 2 then Some (LibError False ''EOF'') else None),
      DecodeToAcceptedFrame = (\<lambda>buf. if length buf < 2 then Some (LibError False ''EOF'') else None),
      DecodeToRejectedFrame = (\<lambda>buf. if length buf < 2 then Some (LibError False ''EOF'') else None)\<rparr>"

section \<open>Routing of data frames\<close>

lemma scan_step_hit: "fb i = Some c \<Longrightarrow> scan_step fb c i j = i + 1"
  by (simp add: scan_step_def)

lemma scan_step_miss: "fb i \<noteq> Some c \<Longrightarrow> scan_step fb c i j = j"
  by (simp add: scan_step_def)

lemma scan_buckets_others:
  "\<forall>k \<in> set order. fb k \<noteq> Some c \<Longrightarrow> fold (scan_step fb c) order j = j"
  by (induction order arbitrary: j) (simp_all add: scan_step_miss)

lemma scan_buckets_unique:
  assumes "i \<in> set order" and "fb i = Some c" and "\<forall>k. fb k = Some c \<longrightarrow> k = i"
  shows "fold (scan_step fb c) order j = i + 1"
  using assms(1)
proof (induction order arbitrary: j)
  case Nil
  then show ?case by simp
next
  case (Cons a order)
  show ?case
  proof (cases "i \<in> set order")
    case True
    then show ?thesis using Cons.IH by simp
  next
    case False
    then have "a = i" using Cons.prems by simp
    moreover have "fold (scan_step fb c) order (i + 1) = i + 1"
      using False assms(3) by (intro scan_buckets_others) auto
    ultimately show ?thesis using assms(2) by (simp add: scan_step_hit)
  qed
qed

text \<open>
  C2, as amended.  A data frame whose issuer is the token of exactly one stage \<open>i\<close> is
  routed to stage \<open>i + 1\<close>, whatever the order in which Go visits the workflow map: it is
  written to the stream registered under that stage's token when the token is assigned,
  not empty and registered, and dropped (no write) otherwise.  For \<open>i = -1\<close> (target stage
  \<open>0\<close>) with stage \<open>0\<close> unassigned or empty this is stated only when the registry has no
  entry under the empty name.
\<close>

theorem handleDataFrame_next_stage:
  assumes "range_order (funcBuckets s) order"
    and "funcBuckets s i = Some (Issuer f)"
    and "\<forall>k. funcBuckets s k = Some (Issuer f) \<longrightarrow> k = i"
    and "i + 1 = 0 \<longrightarrow> bucket (funcBuckets s) 0 \<noteq> [] \<or> funcs_Get (funcs s) [] = None"
  shows "snd (handleDataFrame s order f) = claimed_next_stage s f i"
proof -
  have "i \<in> set order" using assms(1,2) by (auto simp: range_order_def)
  then have j: "scan_buckets (funcBuckets s) order (Issuer f) = i + 1"
    unfolding scan_buckets_def using assms(2,3) by (rule scan_buckets_unique)
  show ?thesis using assms(4)
    by (auto simp: handleDataFrame_def j write_to_def Let_def claimed_next_stage_def bucket_def
        split: option.splits)
qed

theorem handleDataFrame_next_stage_witness:
  "snd (handleDataFrame (server_with [''A'' \<mapsto> 1, ''B'' \<mapsto> 2] [0 \<mapsto> ''A'', 1 \<mapsto> ''B''])
          [1, 0] (data_from ''A''))
     = [Write 2 [0xBF, 2, 1, 2]]
   \<and> snd (handleDataFrame (server_with [''A'' \<mapsto> 1, ''B'' \<mapsto> 2] [0 \<mapsto> ''A'', 1 \<mapsto> ''B''])
          [1, 0] (data_from ''B''))
     = []"
  using handleDataFrame_next_stage [of
          "server_with [''A'' \<mapsto> 1, ''B'' \<mapsto> 2] [0 \<mapsto> ''A'', 1 \<mapsto> ''B'']"
          "[1, 0]" 0 "data_from ''A''"]
        handleDataFrame_next_stage [of
          "server_with [''A'' \<mapsto> 1, ''B'' \<mapsto> 2] [0 \<mapsto> ''A'', 1 \<mapsto> ''B'']"
          "[1, 0]" 1 "data_from ''B''"]
  by (auto simp: range_order_def claimed_next_stage_def funcs_Get_def)

text \<open>
  C2 as stated fails.  With the token \<open>A\<close> at stages \<open>0\<close> and \<open>1\<close> and \<open>A\<close> registered, a
  frame issued by \<open>A\<close> is dropped when Go visits stage \<open>0\<close> before stage \<open>1\<close> (the claim for
  \<open>i = 0\<close> forwards it), and forwarded when Go visits stage \<open>1\<close> first (the claim for
  \<open>i = 1\<close> drops it).  With \<open>A\<close> at stage \<open>-1\<close>, no stage \<open>0\<close> and a function registered
  under the empty name, the frame is written to that function (the claim drops it).
\<close>

theorem claimed_next_stage_counterexample:
  "funcBuckets (server_with [''A'' \<mapsto> 7] [0 \<mapsto> ''A'', 1 \<mapsto> ''A'']) 0 = Some (Issuer (data_from ''A''))
   \<and> range_order [0 \<mapsto> ''A'', 1 \<mapsto> ''A''] [0, 1]
   \<and> snd (handleDataFrame (server_with [''A'' \<mapsto> 7] [0 \<mapsto> ''A'', 1 \<mapsto> ''A'']) [0, 1] (data_from ''A''))
       = []
   \<and> claimed_next_stage (server_with [''A'' \<mapsto> 7] [0 \<mapsto> ''A'', 1 \<mapsto> ''A'']) (data_from ''A'') 0
       = [Write 7 [0xBF, 2, 1, 2]]
   \<and> funcBuckets (server_with [''A'' \<mapsto> 7] [0 \<mapsto> ''A'', 1 \<mapsto> ''A'']) 1 = Some (Issuer (data_from ''A''))
   \<and> range_order [0 \<mapsto> ''A'', 1 \<mapsto> ''A''] [1, 0]
   \<and> snd (handleDataFrame (server_with [''A'' \<mapsto> 7] [0 \<mapsto> ''A'', 1 \<mapsto> ''A'']) [1, 0] (data_from ''A''))
       = [Write 7 [0xBF, 2, 1, 2]]
   \<and> claimed_next_stage (server_with [''A'' \<mapsto> 7] [0 \<mapsto> ''A'', 1 \<mapsto> ''A'']) (data_from ''A'') 1
       = []
   \<and> funcBuckets (server_with [[] \<mapsto> 9] [- 1 \<mapsto> ''A'']) (- 1) = Some (Issuer (data_from ''A''))
   \<and> range_order [- 1 \<mapsto> ''A''] [- 1]
   \<and> snd (handleDataFrame (server_with [[] \<mapsto> 9] [- 1 \<mapsto> ''A'']) [- 1] (data_from ''A''))
       = [Write 9 [0xBF, 2, 1, 2]]
   \<and> claimed_next_stage (server_with [[] \<mapsto> 9] [- 1 \<mapsto> ''A'']) (data_from ''A'') (- 1)
       = []"
  by (simp add: range_order_def claimed_next_stage_def funcs_Get_def handleDataFrame_def
      scan_buckets_def scan_step_def bucket_def write_to_def Let_def insert_commute)

text \<open>
  C6.  A data frame whose issuer is the token of no stage is routed to stage \<open>0\<close>: it is
  written to the stream registered under \<open>s.funcBuckets[0]\<close>, and dropped when the registry
  has no entry for that token.
\<close>

theorem handleDataFrame_first_stage:
  assumes "\<forall>k. funcBuckets s k \<noteq> Some (Issuer f)"
  shows "snd (handleDataFrame s order f) =
           (case funcs_Get (funcs s) (bucket (funcBuckets s) 0) of
              None \<Rightarrow> []
            | Some t \<Rightarrow> [Write t (Encode f)])"
proof -
  have "fold (scan_step (funcBuckets s) (Issuer f)) order 0 = 0"
    using assms by (intro scan_buckets_others) simp
  then show ?thesis
    by (simp add: handleDataFrame_def scan_buckets_def write_to_def Let_def)
qed

theorem handleDataFrame_first_stage_witness:
  "snd (handleDataFrame (server_with [''A'' \<mapsto> 1, ''B'' \<mapsto> 2] [0 \<mapsto> ''A'', 1 \<mapsto> ''B''])
          [1, 0] (data_from ''SRC''))
     = [Write 1 [0xBF, 2, 1, 2]]
   \<and> snd (handleDataFrame (server_with [''B'' \<mapsto> 2] [0 \<mapsto> ''A'', 1 \<mapsto> ''B''])
          [0, 1] (data_from ''SRC''))
     = []"
  using handleDataFrame_first_stage [of
          "server_with [''A'' \<mapsto> 1, ''B'' \<mapsto> 2] [0 \<mapsto> ''A'', 1 \<mapsto> ''B'']"
          "data_from ''SRC''" "[1, 0]"]
        handleDataFrame_first_stage [of
          "server_with [''B'' \<mapsto> 2] [0 \<mapsto> ''A'', 1 \<mapsto> ''B'']"
          "data_from ''SRC''" "[0, 1]"]
  by (simp add: funcs_Get_def bucket_def)

section \<open>The workflow table\<close>

lemma AddWorkflow_fold:
  "fold add_stage wfs s = s\<lparr>funcBuckets := table_after (funcBuckets s) wfs\<rparr>"
proof (induction wfs rule: rev_induct)
  case Nil
  then show ?case by (simp add: table_after_def)
next
  case (snoc x xs)
  have upd: "(table_after (funcBuckets s) xs)(Seq x \<mapsto> Token x) = table_after (funcBuckets s) (xs @ [x])"
    by (rule ext) (simp add: table_after_def Let_def)
  have "fold add_stage (xs @ [x]) s = add_stage x (fold add_stage xs s)"
    by simp
  also have "\<dots> = add_stage x (s\<lparr>funcBuckets := table_after (funcBuckets s) xs\<rparr>)"
    by (simp only: snoc.IH)
  also have "\<dots> = s\<lparr>funcBuckets := (table_after (funcBuckets s) xs)(Seq x \<mapsto> Token x)\<rparr>"
    by (simp add: add_stage_def)
  also have "\<dots> = s\<lparr>funcBuckets := table_after (funcBuckets s) (xs @ [x])\<rparr>"
    by (simp only: upd)
  finally show ?case .
qed

text \<open>
  C7.  \<open>AddWorkflow\<close> never fails (it returns \<open>nil\<close>); afterwards each stage holds the
  token of the last pair supplied with that sequence number (a later pair overwrites an
  earlier one with the same sequence); and two lists that agree, for every sequence
  number, on the pairs with that number in their order give the same table: the order of
  pairs with different sequence numbers does not matter.
\<close>

theorem AddWorkflow_table:
  "snd (AddWorkflow s wfs) = None
   \<and> fst (AddWorkflow s wfs) = s\<lparr>funcBuckets := table_after (funcBuckets s) wfs\<rparr>
   \<and> ((\<forall>k. filter (\<lambda>wf. Seq wf = k) wfs' = filter (\<lambda>wf. Seq wf = k) wfs)
        \<longrightarrow> AddWorkflow s wfs' = AddWorkflow s wfs)"
  by (simp add: AddWorkflow_def AddWorkflow_fold table_after_def)

theorem AddWorkflow_table_witness:
  "AddWorkflow NewServer [stage 1 ''B'', stage 0 ''A'', stage 1 ''C'']
     = AddWorkflow NewServer [stage 0 ''A'', stage 1 ''B'', stage 1 ''C'']
   \<and> funcBuckets (fst (AddWorkflow NewServer [stage 1 ''B'', stage 0 ''A'', stage 1 ''C''])) 1 = Some ''C''
   \<and> funcBuckets (fst (AddWorkflow NewServer [stage 1 ''B'', stage 0 ''A'', stage 1 ''C''])) 0 = Some ''A''
   \<and> funcBuckets (fst (AddWorkflow NewServer [stage 1 ''B'', stage 0 ''A'', stage 1 ''C''])) 2 = None"
  using AddWorkflow_table [of NewServer "[stage 0 ''A'', stage 1 ''B'', stage 1 ''C'']"
          "[stage 1 ''B'', stage 0 ''A'', stage 1 ''C'']"]
  by (auto simp: table_after_def NewServer_def)

section \<open>The function registry\<close>

text \<open>
  C5.  After a handshake frame with client type StreamFunction the registry returns the
  frame's stream under the frame's name; a later StreamFunction handshake with the same
  name replaces the handle; a handshake with client type Source or UpstreamZipper leaves
  the registry as it was.
\<close>

theorem handleHandShakeFrame_registry:
  "(ClientType f = ConnTypeStreamFunction \<longrightarrow>
      funcs_Get (funcs (handleHandShakeFrame s strm f)) (Name f) = Some strm)
   \<and> (ClientType f = ConnTypeStreamFunction \<and> ClientType g = ConnTypeStreamFunction \<and>
      Name g = Name f \<longrightarrow>
      funcs_Get (funcs (handleHandShakeFrame (handleHandShakeFrame s strm f) strm' g)) (Name f)
        = Some strm')
   \<and> (ClientType f = ConnTypeSource \<or> ClientType f = ConnTypeUpstreamZipper \<longrightarrow>
      funcs (handleHandShakeFrame s strm f) = funcs s)"
  by (simp add: handleHandShakeFrame_def funcs_Get_def funcs_Set_def)

theorem handleHandShakeFrame_registry_witness:
  "funcs_Get (funcs (handleHandShakeFrame NewServer 4
       \<lparr>Name = ''A'', ClientType = ConnTypeStreamFunction\<rparr>)) ''A'' = Some 4
   \<and> funcs_Get (funcs (handleHandShakeFrame (handleHandShakeFrame NewServer 4
       \<lparr>Name = ''A'', ClientType = ConnTypeStreamFunction\<rparr>) 8
       \<lparr>Name = ''A'', ClientType = ConnTypeStreamFunction\<rparr>)) ''A'' = Some 8
   \<and> funcs (handleHandShakeFrame NewServer 4 \<lparr>Name = ''A'', ClientType = ConnTypeSource\<rparr>)
       = funcs NewServer"
  using handleHandShakeFrame_registry [of "\<lparr>Name = ''A'', ClientType = ConnTypeStreamFunction\<rparr>"
          NewServer 4 "\<lparr>Name = ''A'', ClientType = ConnTypeStreamFunction\<rparr>" 8]
        handleHandShakeFrame_registry [of "\<lparr>Name = ''A'', ClientType = ConnTypeSource\<rparr>"
          NewServer 4 "\<lparr>Name = ''A'', ClientType = ConnTypeSource\<rparr>" 8]
  by simp

section \<open>The counter of data frames\<close>

lemma handleDataFrame_state:
  "fst (handleDataFrame s order f) = s\<lparr>counterOfDataFrame := counterOfDataFrame s + 1\<rparr>"
  by (simp add: handleDataFrame_def Let_def)

lemma dispatch_counter:
  "counterOfDataFrame (fst (dispatch s strm order f))
     = counterOfDataFrame s + (case f of FData d \<Rightarrow> 1 | _ \<Rightarrow> 0)"
  by (simp add: dispatch_def handleDataFrame_state handleHandShakeFrame_def handlePingFrame_def
      split: Frame.splits ConnectionType.splits)

lemma handleSession_counter:
  "counterOfDataFrame (fst (handleSession s strm reads))
     = counterOfDataFrame s + of_nat (data_frames_read reads)"
proof (induction reads arbitrary: s)
  case Nil
  then show ?case by simp
next
  case (Cons x rest)
  obtain res order where x: "x = (res, order)" by (cases x)
  show ?case
  proof (cases res)
    case (Inl err)
    then show ?thesis using x by simp
  next
    case (Inr f)
    obtain s1 ev1 where d: "dispatch s strm order f = (s1, ev1)"
      by (cases "dispatch s strm order f")
    obtain s2 ev2 r where h: "handleSession s1 strm rest = (s2, ev2, r)"
      by (cases "handleSession s1 strm rest")
    have "counterOfDataFrame s2 = counterOfDataFrame s1 + of_nat (data_frames_read rest)"
      using Cons.IH [of s1] h by simp
    moreover have "counterOfDataFrame s1 = counterOfDataFrame s + (case f of FData d \<Rightarrow> 1 | _ \<Rightarrow> 0)"
      using dispatch_counter [of s strm order f] d by simp
    ultimately show ?thesis using d h x Inr by (cases f) simp_all
  qed
qed

text \<open>
  C10.  Handling a data frame changes the server state in exactly one way: the counter is
  one more (in \<open>int64\<close>), whether the frame is then forwarded or dropped; the increment
  comes first and the routing does not depend on the counter.  So after a stream has been
  read the counter has grown by the number of data frames received on it.
\<close>

theorem handleDataFrame_counter:
  "fst (handleDataFrame s order f) = s\<lparr>counterOfDataFrame := counterOfDataFrame s + 1\<rparr>
   \<and> StatsCounter (fst (handleDataFrame s order f)) = StatsCounter s + 1
   \<and> snd (handleDataFrame (s\<lparr>counterOfDataFrame := c\<rparr>) order f) = snd (handleDataFrame s order f)
   \<and> StatsCounter (fst (handleSession s strm reads)) = StatsCounter s + of_nat (data_frames_read reads)"
  by (simp add: handleDataFrame_state StatsCounter_def handleSession_counter)
     (simp add: handleDataFrame_def Let_def)

theorem handleDataFrame_counter_witness:
  "StatsCounter (fst (handleDataFrame (server_with [''A'' \<mapsto> 1] [0 \<mapsto> ''A'']) [0] (data_from ''A''))) = 1
   \<and> snd (handleDataFrame (server_with [''A'' \<mapsto> 1] [0 \<mapsto> ''A'']) [0] (data_from ''A'')) = []
   \<and> StatsCounter (fst (handleSession (server_with [''A'' \<mapsto> 1] [0 \<mapsto> ''A'']) 4
         [(Inr (FData (data_from ''A'')), [0]), (Inr FPing, []),
          (Inr (FData (data_from ''SRC'')), [0])])) = 2"
  using handleDataFrame_counter [of "server_with [''A'' \<mapsto> 1] [0 \<mapsto> ''A'']" "[0]"
          "data_from ''A''" 0 4
          "[(Inr (FData (data_from ''A'')), [0]), (Inr FPing, []),
            (Inr (FData (data_from ''SRC'')), [0])]"]
  by (simp add: StatsCounter_def handleDataFrame_def scan_buckets_def scan_step_def bucket_def
      Let_def)

section \<open>Parsing frames\<close>

lemma kind_of_marked: "kind_of (0x80 OR t) = kind_of t"
  by (simp add: kind_of_def bit.conj_disj_distrib2)

text \<open>
  C9.  When the first byte of a packet, without its marker bit, is the kind of none of the
  six frame tags, \<open>ParseFrame\<close> returns the error "unknown frame type" to its caller: it
  does not panic, and no decoder is called (the result is the same for every codec).
\<close>

theorem ParseFrame_unknown_kind:
  assumes "kind_of b \<notin> kind_of ` set (known_tags tg)"
  shows "ParseFrame tg cdc (Inr (b # rest)) = Returns (Inl (UnknownFrameType b))"
proof -
  have "b \<noteq> 0x80 OR t" if "t \<in> set (known_tags tg)" for t
    using assms that kind_of_marked [of t] by auto
  then show ?thesis
    by (simp add: ParseFrame_def known_tags_def)
qed

theorem ParseFrame_unknown_kind_witness:
  "ParseFrame example_tags example_codec (Inr [0x85, 0x01, 0x00]) = Returns (Inl (UnknownFrameType 0x85))"
  using ParseFrame_unknown_kind [of "0x85" example_tags example_codec "[0x01, 0x00]"]
  by (simp add: kind_of_def known_tags_def)

text \<open>
  C1 does not hold of the code.  When the first byte selects the handshake frame, or the
  data frame, and the decoder of that frame returns an error, \<open>ParseFrame\<close> does not return
  the error: \<open>readHandshakeFrame\<close> and \<open>readDataFrame\<close> panic with it.  The branch of the
  ping frame (and those of pong, accepted and rejected) returns the decoder's error.
\<close>

theorem ParseFrame_malformed_panics:
  "(b = 0x80 OR TagOfHandshakeFrame tg \<and> DecodeToHandshakeFrame cdc (b # rest) = Inl err \<longrightarrow>
      ParseFrame tg cdc (Inr (b # rest)) = Panics (PanicError err))
   \<and> (b \<noteq> 0x80 OR TagOfHandshakeFrame tg \<and> b = 0x80 OR TagOfDataFrame tg \<and>
      DecodeToDataFrame cdc (b # rest) = Inl err \<longrightarrow>
      ParseFrame tg cdc (Inr (b # rest)) = Panics (PanicError err))
   \<and> (b \<noteq> 0x80 OR TagOfHandshakeFrame tg \<and> b \<noteq> 0x80 OR TagOfDataFrame tg \<and>
      b = 0x80 OR TagOfPingFrame tg \<and> DecodeToPingFrame cdc (b # rest) = Some err \<longrightarrow>
      ParseFrame tg cdc (Inr (b # rest)) = Returns (Inl err))"
  by (auto simp: ParseFrame_def readHandshakeFrame_def readDataFrame_def decoded_def)

theorem ParseFrame_malformed_panics_witness:
  "ParseFrame example_tags example_codec (Inr [0xBD, 0x00]) = Panics (PanicError (LibError False ''EOF''))
   \<and> ParseFrame example_tags example_codec (Inr [0xBF, 0x00]) = Panics (PanicError (LibError False ''EOF''))
   \<and> ParseFrame example_tags example_codec (Inr [0xBC]) = Returns (Inl (LibError False ''EOF''))"
  using ParseFrame_malformed_panics [of "0xBD" example_tags example_codec "[0x00]" "LibError False ''EOF''"]
        ParseFrame_malformed_panics [of "0xBF" example_tags example_codec "[0x00]" "LibError False ''EOF''"]
        ParseFrame_malformed_panics [of "0xBC" example_tags example_codec "[]" "LibError False ''EOF''"]
  by simp

lemma ParseFrame_data:
  assumes "ParseFrame tg cdc (Inr buf) = Returns (Inr (FData f))"
  shows "DecodeToDataFrame cdc buf = Inr f"
  using assms
  by (auto simp: ParseFrame_def readHandshakeFrame_def readDataFrame_def decoded_def
      split: list.splits if_splits sum.splits option.splits)

lemma handleDataFrame_writes:
  "snd (handleDataFrame s order f) = [] \<or> (\<exists>t. snd (handleDataFrame s order f) = [Write t (Encode f)])"
  by (simp add: handleDataFrame_def Let_def write_to_def split: option.splits)

text \<open>
  C4.  Let the codec give back, for a decoded data frame, the bytes it was decoded from.
  When \<open>ParseFrame\<close> has decoded the packet \<open>buf\<close> into the data frame \<open>f\<close>, handling \<open>f\<close>
  writes nothing or makes one write, of the bytes \<open>buf\<close>: the server hands the frame from
  the parser to the stream without changing it.
\<close>

theorem forwarded_bytes_unchanged:
  assumes "codec_roundtrip cdc"
    and "ParseFrame tg cdc (Inr buf) = Returns (Inr (FData f))"
  shows "snd (handleDataFrame s order f) = [] \<or> (\<exists>t. snd (handleDataFrame s order f) = [Write t buf])"
proof -
  have "Encode f = buf"
    using assms ParseFrame_data [of tg cdc buf f] by (simp add: codec_roundtrip_def)
  then show ?thesis using handleDataFrame_writes [of s order f] by simp
qed

theorem forwarded_bytes_unchanged_witness:
  "codec_roundtrip example_codec
   \<and> ParseFrame example_tags example_codec (Inr [0xBF, 0x02, 0x07, 0x09])
       = Returns (Inr (FData \<lparr>TransactionID = ''t1'', Issuer = ''A'', GetDataTagID = 0x10,
                    GetCarriage = [0x07, 0x09], Encode = [0xBF, 0x02, 0x07, 0x09]\<rparr>))
   \<and> snd (handleDataFrame (server_with [''A'' \<mapsto> 1, ''B'' \<mapsto> 2] [0 \<mapsto> ''A'', 1 \<mapsto> ''B'']) [0, 1]
         \<lparr>TransactionID = ''t1'', Issuer = ''A'', GetDataTagID = 0x10,
                    GetCarriage = [0x07, 0x09], Encode = [0xBF, 0x02, 0x07, 0x09]\<rparr>)
       = [Write 2 [0xBF, 0x02, 0x07, 0x09]]"
proof -
  have r: "codec_roundtrip example_codec"
    by (auto simp: codec_roundtrip_def split: if_splits)
  have p: "ParseFrame example_tags example_codec (Inr [0xBF, 0x02, 0x07, 0x09])
       = Returns (Inr (FData \<lparr>TransactionID = ''t1'', Issuer = ''A'', GetDataTagID = 0x10,
                    GetCarriage = [0x07, 0x09], Encode = [0xBF, 0x02, 0x07, 0x09]\<rparr>))"
    by (simp add: ParseFrame_def readDataFrame_def)
  have w: "snd (handleDataFrame (server_with [''A'' \<mapsto> 1, ''B'' \<mapsto> 2] [0 \<mapsto> ''A'', 1 \<mapsto> ''B'']) [0, 1]
         \<lparr>TransactionID = ''t1'', Issuer = ''A'', GetDataTagID = 0x10,
                    GetCarriage = [0x07, 0x09], Encode = [0xBF, 0x02, 0x07, 0x09]\<rparr>) \<noteq> []"
    by (simp add: handleDataFrame_def scan_buckets_def scan_step_def bucket_def write_to_def
        funcs_Get_def Let_def)
  show ?thesis
    using forwarded_bytes_unchanged [OF r p,
        of "server_with [''A'' \<mapsto> 1, ''B'' \<mapsto> 2] [0 \<mapsto> ''A'', 1 \<mapsto> ''B'']" "[0, 1]"] r p w
    by (simp add: handleDataFrame_def scan_buckets_def scan_step_def bucket_def write_to_def
        funcs_Get_def Let_def)
qed

section \<open>Read errors on a stream\<close>

lemma acceptLoop_closed: "acceptLoop s True script = (s, [], [], AcceptEnded)"
proof (cases script)
  case Nil
  then show ?thesis by simp
next
  case (Cons a rest)
  then show ?thesis by (cases a) simp_all
qed

lemma handleSession_frames_then:
  assumes "\<forall>r \<in> set frames. \<exists>f. fst r = Inr f"
    and "handleSession s strm frames = (s', ev, x)"
  shows "handleSession s strm (frames @ later) =
           (case handleSession s' strm later of (s2, ev2, r) \<Rightarrow> (s2, ev @ ev2, r))"
  using assms
proof (induction frames arbitrary: s s' ev x)
  case Nil
  then show ?case by (auto split: prod.splits)
next
  case (Cons a frames)
  obtain f order where a: "a = (Inr f, order)"
    using Cons.prems(1) by (cases a) auto
  obtain s1 ev1 where d: "dispatch s strm order f = (s1, ev1)"
    by (cases "dispatch s strm order f")
  obtain s2 ev2 r where h: "handleSession s1 strm frames = (s2, ev2, r)"
    by (cases "handleSession s1 strm frames")
  have e: "s' = s2" "ev = ev1 @ ev2"
    using Cons.prems(2) a d h by simp_all
  have "handleSession s1 strm (frames @ later) =
          (case handleSession s2 strm later of (s3, ev3, r) \<Rightarrow> (s3, ev2 @ ev3, r))"
    using Cons.IH [OF _ h] Cons.prems(1) by simp
  then show ?case using a d e by (simp split: prod.splits)
qed

lemma dispatch_writes: "\<forall>e \<in> set (snd (dispatch s strm order f)). \<exists>t b. e = Write t b"
  by (cases f) (auto simp: dispatch_def handleDataFrame_def Let_def write_to_def split: option.splits)

lemma handleSession_frames_writes:
  assumes "\<forall>r \<in> set frames. \<exists>f. fst r = Inr f"
    and "handleSession s strm frames = (s', ev, x)"
  shows "\<forall>e \<in> set ev. \<exists>t b. e = Write t b"
  using assms
proof (induction frames arbitrary: s s' ev x)
  case Nil
  then show ?case by simp
next
  case (Cons a frames)
  obtain f order where a: "a = (Inr f, order)"
    using Cons.prems(1) by (cases a) auto
  obtain s1 ev1 where d: "dispatch s strm order f = (s1, ev1)"
    by (cases "dispatch s strm order f")
  obtain s2 ev2 r where h: "handleSession s1 strm frames = (s2, ev2, r)"
    by (cases "handleSession s1 strm frames")
  have e: "ev = ev1 @ ev2"
    using Cons.prems(2) a d h by simp
  have "\<forall>e \<in> set ev2. \<exists>t b. e = Write t b"
    using Cons.IH [OF _ h] Cons.prems(1) by simp
  moreover have "\<forall>e \<in> set ev1. \<exists>t b. e = Write t b"
    using dispatch_writes [of s strm order f] d by simp
  ultimately show ?case using e by auto
qed

text \<open>
  C8.  Let a stream deliver the frames \<open>frames\<close> and then the read error \<open>err\<close>.  If
  \<open>errors.Is(err, net.ErrClosed)\<close>, \<open>handleSession\<close> returns without closing anything (the
  frames caused writes only) and the connection goes on to accept the next stream.
  Otherwise \<open>handleSession\<close> closes the stream and closes the session with code \<open>0xCC\<close>,
  and the connection accepts no further stream.
\<close>

theorem read_error_handling:
  assumes "\<forall>r \<in> set frames. \<exists>f. fst r = Inr f"
    and "handleSession s strm frames = (s', ev, x)"
  shows "(is_ErrClosed err \<longrightarrow>
            handleSession s strm (frames @ (Inl err, order) # later) = (s', ev, PeerClosed)
          \<and> (\<forall>e \<in> set ev. \<exists>t b. e = Write t b)
          \<and> acceptLoop s False (AcceptStream strm (frames @ (Inl err, order) # later) # rest)
              = (case acceptLoop s' False rest of
                   (s2, ev2, accepted, a) \<Rightarrow> (s2, ev @ ev2, strm # accepted, a)))
       \<and> (\<not> is_ErrClosed err \<longrightarrow>
            handleSession s strm (frames @ (Inl err, order) # later)
              = (s', ev @ [StreamClose strm, SessionCloseWithError 0xCC err], SessionClosed)
          \<and> acceptLoop s False (AcceptStream strm (frames @ (Inl err, order) # later) # rest)
              = (s', ev @ [StreamClose strm, SessionCloseWithError 0xCC err], [strm], AcceptEnded))"
proof -
  note h = handleSession_frames_then [OF assms, of "(Inl err, order) # later"]
  note w = handleSession_frames_writes [OF assms]
  show ?thesis
  proof (cases "is_ErrClosed err")
    case True
    then have "handleSession s strm (frames @ (Inl err, order) # later) = (s', ev, PeerClosed)"
      using h by simp
    then show ?thesis using True w by simp
  next
    case False
    then have "handleSession s strm (frames @ (Inl err, order) # later)
        = (s', ev @ [StreamClose strm, SessionCloseWithError 0xCC err], SessionClosed)"
      using h by simp
    then show ?thesis using False by (simp add: acceptLoop_closed)
  qed
qed

theorem read_error_handling_witness:
  "acceptLoop NewServer False
      [AcceptStream 4 [(Inr FPing, []), (Inl (LibError True ''closed''), [])],
       AcceptStream 8 [(Inl (LibError False ''timeout''), [])],
       AcceptStream 12 [(Inr FPing, [])]]
     = (NewServer, [StreamClose 8, SessionCloseWithError 0xCC (LibError False ''timeout'')],
        [4, 8], AcceptEnded)"
  using read_error_handling [of "[(Inr FPing, [])]" NewServer 4 NewServer "[]" ReadPending
          "LibError True ''closed''" "[]" "[]"
          "[AcceptStream 8 [(Inl (LibError False ''timeout''), [])], AcceptStream 12 [(Inr FPing, [])]]"]
        read_error_handling [of "[]" NewServer 8 NewServer "[]" ReadPending
          "LibError False ''timeout''" "[]" "[]" "[AcceptStream 12 [(Inr FPing, [])]]"]
  by (simp add: dispatch_def handlePingFrame_def)

end
